theory Spec2Isabelle
  imports Complex_Main "HOL-Library.Sublist" "HOL-Library.Word"
begin

section \<open>The command-line client of the Fallout CE file protocol (cli.py)\<close>

text \<open>
  The client writes one command line into a named pipe and then polls an output file
  until the answer to that command shows up or a deadline passes. Everything it does is
  an interaction with the operating system, so the embedding threads an explicit
  \<open>world\<close> through every function and reads what the operating system answers from an
  \<open>env\<close>, a script of outcomes that the program does not control.

  Conventions of the model:
  \<^item> a Python \<open>str\<close> is a \<open>string\<close>; each \<open>char\<close> stands for the code point of the same
    number, so the model covers text whose code points are at most U+00FF (every such
    text can be encoded, so \<open>UnicodeEncodeError\<close> does not arise);
  \<^item> \<open>bytes\<close> are lists of 8-bit words;
  \<^item> monotonic time and the timeout are real numbers of seconds: rounding of floating
    point numbers and the values \<open>inf\<close> and \<open>nan\<close> are not part of the model;
  \<^item> an exception is the \<open>Inl\<close> of a result.
\<close>

subsection \<open>Text, bytes and errors\<close>

type_synonym path = string
type_synonym byte = "8 word"
type_synonym fd = nat

definition newline :: char where
  "newline = CHR 0x0A"

text \<open>The \<open>errno\<close> values the program tests for, and any other one by its number.\<close>

datatype errno = ENOENT | ENXIO | EOTHER nat

text \<open>
  What a failed system call reports: the \<open>errno\<close> and the text that \<open>str(exc)\<close> gives for
  the \<open>OSError\<close> Python builds from it. \<open>FileNotFoundError\<close> is the \<open>OSError\<close> whose
  \<open>errno\<close> is \<open>ENOENT\<close>.
\<close>

type_synonym oserror = "errno \<times> string"

datatype error = OSError errno string | TimeoutError string

fun str_exc :: "error \<Rightarrow> string" where
  "str_exc (OSError e msg) = msg"
| "str_exc (TimeoutError msg) = msg"

text \<open>\<open>needle in haystack\<close> on \<open>str\<close>: the needle occurs as a contiguous block.\<close>

fun str_in :: "string \<Rightarrow> string \<Rightarrow> bool" where
  "str_in needle [] = (needle = [])"
| "str_in needle (c # cs) = (prefix needle (c # cs) \<or> str_in needle cs)"

text \<open>\<open>s.endswith(suf)\<close>.\<close>

definition endswith :: "string \<Rightarrow> string \<Rightarrow> bool" where
  "endswith s suf = suffix suf s"

text \<open>\<open>sep.join(words)\<close>.\<close>

fun join :: "string \<Rightarrow> string list \<Rightarrow> string" where
  "join sep [] = []"
| "join sep [x] = x"
| "join sep (x # y # ys) = x @ sep @ join sep (y # ys)"

text \<open>
  \<open>str.isspace\<close> on one character, for the code points up to U+00FF: tab to carriage
  return, the four separators U+001C to U+001F, the space, NEL and the no-break space.
\<close>

definition isspace :: "char \<Rightarrow> bool" where
  "isspace c = (let n = (of_char c :: nat) in
     (9 \<le> n \<and> n \<le> 13) \<or> (28 \<le> n \<and> n \<le> 32) \<or> n = 133 \<or> n = 160)"

text \<open>\<open>s.strip()\<close>: whitespace removed at both ends.\<close>

definition strip :: "string \<Rightarrow> string" where
  "strip s = rev (dropWhile isspace (rev (dropWhile isspace s)))"

text \<open>
  \<open>s.encode("utf-8")\<close> for code points up to U+00FF: one byte below U+0080, otherwise the
  two bytes \<open>110xxxxx 10xxxxxx\<close>.
\<close>

definition encode_char :: "char \<Rightarrow> byte list" where
  "encode_char c = (let n = (of_char c :: nat) in
     if n < 128 then [of_nat n] else [of_nat (192 + n div 64), of_nat (128 + n mod 64)])"

definition encode_utf8 :: "string \<Rightarrow> byte list" where
  "encode_utf8 s = concat (map encode_char s)"

subsection \<open>The world and the environment\<close>

text \<open>
  Every interaction with the operating system is logged as an event, with its outcome.
\<close>

datatype event =
    OsOpen path "oserror + fd"
  | FdWrite fd "byte list" "oserror option"
  | FdClose fd
  | ReadText path "oserror + string"
  | Sleep real
  | Stdout string
  | Stderr string

text \<open>
  The world: the value \<open>time.monotonic()\<close> returns now, the number of system calls made
  so far, and the log of everything done so far.
\<close>

record world =
  clock :: real
  tick :: nat
  trace :: "event list"

text \<open>
  The environment answers the \<open>k\<close>-th system call: what opening a path for writing gives,
  what reading a whole text file gives, whether writing to a descriptor fails, and how
  much time the call takes beyond what the program asked for (the latency of a call, the
  oversleep of \<open>time.sleep\<close>; a negative entry counts as zero, the clock never runs
  backwards). The external process that reads the pipe and rewrites the output file is
  part of the environment.
\<close>

record env =
  open_result :: "nat \<Rightarrow> path \<Rightarrow> oserror + fd"
  read_result :: "nat \<Rightarrow> path \<Rightarrow> oserror + string"
  write_result :: "nat \<Rightarrow> fd \<Rightarrow> oserror option"
  latency :: "nat \<Rightarrow> real"

text \<open>One system call: it takes \<open>d\<close> seconds and its latency, and is logged.\<close>

definition syscall :: "env \<Rightarrow> real \<Rightarrow> event \<Rightarrow> world \<Rightarrow> world" where
  "syscall env d ev w =
     w\<lparr>clock := clock w + d + max 0 (latency env (tick w)),
       tick := Suc (tick w),
       trace := trace w @ [ev]\<rparr>"

text \<open>\<open>os.open(path, os.O_WRONLY | os.O_NONBLOCK)\<close>.\<close>

definition os_open :: "env \<Rightarrow> path \<Rightarrow> world \<Rightarrow> (oserror + fd) \<times> world" where
  "os_open env p w =
     (let r = open_result env (tick w) p in (r, syscall env 0 (OsOpen p r) w))"

text \<open>\<open>time.sleep(secs)\<close>: at least \<open>secs\<close> seconds pass.\<close>

definition time_sleep :: "env \<Rightarrow> real \<Rightarrow> world \<Rightarrow> world" where
  "time_sleep env secs w = syscall env secs (Sleep secs) w"

text \<open>
  The \<open>with os.fdopen(fd, "wb", closefd=True)\<close> block: the payload is written and flushed,
  and the descriptor is closed when the block is left, also by an exception.
\<close>

definition write_flush_close :: "env \<Rightarrow> fd \<Rightarrow> byte list \<Rightarrow> world \<Rightarrow> (error + unit) \<times> world" where
  "write_flush_close env fd payload w =
     (let r = write_result env (tick w) fd;
          w1 = syscall env 0 (FdWrite fd payload r) w;
          w2 = w1\<lparr>trace := trace w1 @ [FdClose fd]\<rparr>
      in case r of
           None \<Rightarrow> (Inr (), w2)
         | Some (e, msg) \<Rightarrow> (Inl (OSError e msg), w2))"

text \<open>\<open>sys.stdout.write(s)\<close>, and \<open>print(s, file=sys.stderr)\<close>, which adds the newline.\<close>

definition stdout_write :: "string \<Rightarrow> world \<Rightarrow> world" where
  "stdout_write s w = w\<lparr>trace := trace w @ [Stdout s]\<rparr>"

definition print_stderr :: "string \<Rightarrow> world \<Rightarrow> world" where
  "print_stderr s w = w\<lparr>trace := trace w @ [Stderr (s @ [newline])]\<rparr>"

subsection \<open>send_command\<close>

text \<open>
  The \<open>while True\<close> loop of \<open>send_command\<close>, for a deadline already computed. It ends
  because every round sleeps for 50 ms at least.
\<close>

function open_loop :: "env \<Rightarrow> path \<Rightarrow> real \<Rightarrow> world \<Rightarrow> (error + fd) \<times> world" where
  "open_loop env pipe_path deadline w =
     (case os_open env pipe_path w of
        (Inr fd, w1) \<Rightarrow> (Inr fd, w1)
      | (Inl (e, msg), w1) \<Rightarrow>
          if e \<notin> {ENOENT, ENXIO} then (Inl (OSError e msg), w1)
          else if clock w1 \<ge> deadline
          then (Inl (TimeoutError (''timed out waiting for pipe: '' @ pipe_path)), w1)
          else open_loop env pipe_path deadline (time_sleep env 0.05 w1))"
  by pat_completeness auto
termination
  apply (relation "measure (\<lambda>(env, pipe_path, deadline, w). nat \<lceil>(deadline - clock w) * 20\<rceil>)")
   apply simp
  subgoal premises prems for env pipe_path deadline w r w1 a e msg
  proof -
    have w1: "w1 = syscall env 0 (OsOpen pipe_path r) w"
      using prems(1) by (simp add: os_open_def Let_def)
    have c1: "clock w \<le> clock w1"
      by (simp add: w1 syscall_def)
    have c2: "clock w1 + 1 / 20 \<le> clock (time_sleep env 0.05 w1)"
      by (simp add: time_sleep_def syscall_def)
    have "(deadline - clock (time_sleep env 0.05 w1)) * 20 \<le> (deadline - clock w) * 20 - 1"
      using c1 c2 by simp
    then have "\<lceil>(deadline - clock (time_sleep env 0.05 w1)) * 20\<rceil> \<le> \<lceil>(deadline - clock w) * 20\<rceil> - 1"
      by (metis ceiling_diff_one ceiling_mono)
    moreover have "0 < \<lceil>(deadline - clock w) * 20\<rceil>"
      using prems(5) c1 by simp
    ultimately show ?thesis
      by simp
  qed
  done

declare open_loop.simps [simp del]

definition send_command :: "env \<Rightarrow> path \<Rightarrow> string \<Rightarrow> real \<Rightarrow> world \<Rightarrow> (error + unit) \<times> world" where
  "send_command env pipe_path command timeout w =
     (let deadline = clock w + timeout;
          payload = encode_utf8 (command @ [newline])
      in case open_loop env pipe_path deadline w of
           (Inl exc, w1) \<Rightarrow> (Inl exc, w1)
         | (Inr fd, w1) \<Rightarrow> write_flush_close env fd payload w1)"

subsection \<open>wait_for_response\<close>

text \<open>\<open>read_text(path)\<close>: the whole file as text; undecodable bytes do not fail.\<close>

definition read_text :: "env \<Rightarrow> path \<Rightarrow> world \<Rightarrow> (oserror + string) \<times> world" where
  "read_text env p w =
     (let r = read_result env (tick w) p in (r, syscall env 0 (ReadText p r) w))"

text \<open>
  The \<open>try\<close> block of the polling loop. \<open>Some\<close> leaves the function, with the matched
  text or with the exception that is not caught; \<open>None\<close> goes on to the deadline check,
  after a text that does not match or after \<open>FileNotFoundError\<close>.
\<close>

definition try_read :: "env \<Rightarrow> path \<Rightarrow> string \<Rightarrow> string \<Rightarrow> world \<Rightarrow> (error + string) option \<times> world" where
  "try_read env output_path previous command w =
     (case read_text env output_path w of
        (Inr text, w1) \<Rightarrow>
          if text \<noteq> previous \<and> str_in (''command='' @ command) text
          then (Some (Inr text), w1) else (None, w1)
      | (Inl (e, msg), w1) \<Rightarrow>
          if e = ENOENT then (None, w1) else (Some (Inl (OSError e msg)), w1))"

text \<open>
  The \<open>while True\<close> loop of \<open>wait_for_response\<close> together with the \<open>raise\<close> that follows
  its \<open>break\<close>, for a deadline already computed.
\<close>

function wait_loop :: "env \<Rightarrow> path \<Rightarrow> string \<Rightarrow> string \<Rightarrow> real \<Rightarrow> world \<Rightarrow> (error + string) \<times> world" where
  "wait_loop env output_path previous command deadline w =
     (case try_read env output_path previous command w of
        (Some res, w1) \<Rightarrow> (res, w1)
      | (None, w1) \<Rightarrow>
          if clock w1 \<ge> deadline
          then (Inl (TimeoutError (''timed out waiting for response file update: '' @ output_path)), w1)
          else wait_loop env output_path previous command deadline (time_sleep env 0.05 w1))"
  by pat_completeness auto
termination
  apply (relation "measure (\<lambda>(env, output_path, previous, command, deadline, w).
                     nat \<lceil>(deadline - clock w) * 20\<rceil>)")
   apply simp
  subgoal premises prems for env output_path previous command deadline w r w1
  proof -
    have "w1 = snd (try_read env output_path previous command w)"
      using prems(1) by (metis snd_conv)
    then have c1: "clock w \<le> clock w1"
      by (simp add: try_read_def read_text_def syscall_def Let_def
          split: sum.splits prod.splits if_splits)
    have c2: "clock w1 + 1 / 20 \<le> clock (time_sleep env 0.05 w1)"
      by (simp add: time_sleep_def syscall_def)
    have "(deadline - clock (time_sleep env 0.05 w1)) * 20 \<le> (deadline - clock w) * 20 - 1"
      using c1 c2 by simp
    then have "\<lceil>(deadline - clock (time_sleep env 0.05 w1)) * 20\<rceil> \<le> \<lceil>(deadline - clock w) * 20\<rceil> - 1"
      by (metis ceiling_diff_one ceiling_mono)
    moreover have "0 < \<lceil>(deadline - clock w) * 20\<rceil>"
      using prems(3) c1 by simp
    ultimately show ?thesis
      by simp
  qed
  done

declare wait_loop.simps [simp del]

definition wait_for_response :: "env \<Rightarrow> path \<Rightarrow> string \<Rightarrow> string \<Rightarrow> real \<Rightarrow> world \<Rightarrow> (error + string) \<times> world" where
  "wait_for_response env output_path previous command timeout w =
     (let deadline = clock w + timeout
      in wait_loop env output_path previous command deadline w)"

subsection \<open>main\<close>

text \<open>What \<open>parser.parse_args()\<close> returns; argument parsing itself is not modelled.\<close>

record args =
  arg_command :: "string list"
  arg_pipe :: path
  arg_out :: path
  arg_timeout :: real

text \<open>
  \<open>main\<close> returns its exit code, or lets an exception escape: the first \<open>read_text\<close> stands
  outside the \<open>try\<close> that reports errors, and only its \<open>FileNotFoundError\<close> is caught.
\<close>

definition main :: "env \<Rightarrow> args \<Rightarrow> world \<Rightarrow> (error + int) \<times> world" where
  "main env a w =
     (let command = strip (join '' '' (arg_command a)) in
      if command = [] then (Inr 2, print_stderr ''error: empty command'' w)
      else
        case (case read_text env (arg_out a) w of
                (Inr text, w1) \<Rightarrow> (Inr text, w1)
              | (Inl (e, msg), w1) \<Rightarrow>
                  if e = ENOENT then (Inr [], w1) else (Inl (OSError e msg), w1)) of
          (Inl exc, w1) \<Rightarrow> (Inl exc, w1)
        | (Inr previous, w1) \<Rightarrow>
            (case send_command env (arg_pipe a) command (arg_timeout a) w1 of
               (Inl exc, w2) \<Rightarrow> (Inr 1, print_stderr (''error: '' @ str_exc exc) w2)
             | (Inr u, w2) \<Rightarrow>
                 (case wait_for_response env (arg_out a) previous command (arg_timeout a) w2 of
                    (Inl exc, w3) \<Rightarrow> (Inr 1, print_stderr (''error: '' @ str_exc exc) w3)
                  | (Inr response, w3) \<Rightarrow>
                      (let w4 = stdout_write response w3;
                           w5 = (if \<not> endswith response [newline]
                                 then stdout_write [newline] w4 else w4)
                       in (Inr 0, w5)))))"

subsection \<open>Reading the log\<close>


subsection \<open>Example worlds and environments\<close>

text \<open>
  The concrete inputs on which the theorems below are instantiated. The paths are the
  defaults of the program, descriptor 3 is what a successful \<open>os.open\<close> returns, and the
  messages are those of the C library.
\<close>

text \<open>The world at the start of a run.\<close>

definition w0 :: world where
  "w0 = \<lparr>clock = 0, tick = 0, trace = []\<rparr>"

text \<open>
  A reader is attached to the pipe; the output file is absent at the first system call and
  holds the answer to \<open>state\<close> from then on.
\<close>

definition env_answering :: env where
  "env_answering =
     \<lparr>open_result = (\<lambda>k p. Inr 3),
      read_result = (\<lambda>k p. if k = 0 then Inl (ENOENT, ''No such file or directory'')
                             else Inr (''command=state'' @ [newline] @ ''HP: 100'' @ [newline])),
      write_result = (\<lambda>k fd. None),
      latency = (\<lambda>k. 0)\<rparr>"

text \<open>The output file holds an old answer to \<open>heal\<close> and is never rewritten.\<close>

definition env_stale :: env where
  "env_stale =
     \<lparr>open_result = (\<lambda>k p. Inr 3),
      read_result = (\<lambda>k p. Inr (''command=heal'' @ [newline])),
      write_result = (\<lambda>k fd. None),
      latency = (\<lambda>k. 0)\<rparr>"


definition args_blank :: args where
  "args_blank =
     \<lparr>arg_command = [''  ''], arg_pipe = ''/tmp/fallout-cli-in'',
      arg_out = ''/tmp/fallout-cli-out.txt'', arg_timeout = 2\<rparr>"

text \<open>The pipe exists and never has a reader; the output file never appears.\<close>

definition env_no_reader :: env where
  "env_no_reader =
     \<lparr>open_result = (\<lambda>k p. Inl (ENXIO, ''No such device or address'')),
      read_result = (\<lambda>k p. Inl (ENOENT, ''No such file or directory'')),
      write_result = (\<lambda>k fd. None),
      latency = (\<lambda>k. 0)\<rparr>"


text \<open>
  A reader attaches late: the system calls before the eighth find none. The output file never
  appears. With it, the command line \<open>state --timeout 0.12\<close>.
\<close>

definition env_late_reader :: env where
  "env_late_reader =
     \<lparr>open_result = (\<lambda>k p. if k < 7 then Inl (ENXIO, ''No such device or address'') else Inr 3),
      read_result = (\<lambda>k p. Inl (ENOENT, ''No such file or directory'')),
      write_result = (\<lambda>k fd. None),
      latency = (\<lambda>k. 0)\<rparr>"

definition args_late :: args where
  "args_late =
     \<lparr>arg_command = [''state''], arg_pipe = ''/tmp/fallout-cli-in'',
      arg_out = ''/tmp/fallout-cli-out.txt'', arg_timeout = 0.12\<rparr>"



section \<open>Properties of the loops\<close>

subsection \<open>Text and bytes\<close>

text \<open>\<open>str_in\<close> is containment as a contiguous block.\<close>

lemma str_in_iff: "str_in needle hay \<longleftrightarrow> (\<exists>pre post. hay = pre @ needle @ post)"
proof (induction hay)
  case Nil
  then show ?case by auto
next
  case (Cons c cs)
  show ?case
  proof
    assume "str_in needle (c # cs)"
    then consider "prefix needle (c # cs)" | "str_in needle cs" by auto
    then show "\<exists>pre post. c # cs = pre @ needle @ post"
    proof cases
      case 1
      then obtain post where "c # cs = needle @ post" by (auto simp: prefix_def)
      then have "c # cs = [] @ needle @ post" by simp
      then show ?thesis by blast
    next
      case 2
      with Cons.IH obtain pre post where "cs = pre @ needle @ post" by blast
      then have "c # cs = (c # pre) @ needle @ post" by simp
      then show ?thesis by blast
    qed
  next
    assume "\<exists>pre post. c # cs = pre @ needle @ post"
    then obtain pre post where eq: "c # cs = pre @ needle @ post" by blast
    show "str_in needle (c # cs)"
    proof (cases pre)
      case Nil
      with eq have "prefix needle (c # cs)" by (simp add: prefix_def)
      then show ?thesis by simp
    next
      case (Cons p ps)
      with eq have "cs = ps @ needle @ post" by simp
      with Cons.IH have "str_in needle cs" by blast
      then show ?thesis by simp
    qed
  qed
qed

lemma encode_utf8_append: "encode_utf8 (xs @ ys) = encode_utf8 xs @ encode_utf8 ys"
  by (simp add: encode_utf8_def)

lemma encode_char_newline: "encode_char newline = [0x0A]"
  by (simp add: encode_char_def newline_def)

lemma payload_eq: "encode_utf8 (command @ [newline]) = encode_utf8 command @ [0x0A]"
  by (simp add: encode_utf8_append) (simp add: encode_utf8_def encode_char_newline)








subsection \<open>System calls\<close>

text \<open>What one system call does to the clock, the counter and the log.\<close>

lemma clock_syscall: "clock (syscall env d ev w) = clock w + d + max 0 (latency env (tick w))"
  by (simp add: syscall_def)

lemma tick_syscall: "tick (syscall env d ev w) = Suc (tick w)"
  by (simp add: syscall_def)

lemma trace_syscall: "trace (syscall env d ev w) = trace w @ [ev]"
  by (simp add: syscall_def)

lemma no_latency: "\<forall>k. latency env k \<le> 0 \<Longrightarrow> max 0 (latency env k) = 0"
  by (simp add: max_absorb1)

lemma os_open_eq:
  "os_open env p w = (open_result env (tick w) p, syscall env 0 (OsOpen p (open_result env (tick w) p)) w)"
  by (simp add: os_open_def Let_def)

lemma read_text_eq:
  "read_text env p w = (read_result env (tick w) p, syscall env 0 (ReadText p (read_result env (tick w) p)) w)"
  by (simp add: read_text_def Let_def)


lemma fst_write_flush_close:
  "fst (write_flush_close env fd payload w) =
     (case write_result env (tick w) fd of None \<Rightarrow> Inr () | Some (e, msg) \<Rightarrow> Inl (OSError e msg))"
  by (simp add: write_flush_close_def Let_def split: option.splits prod.splits)

lemma clock_write_flush_close:
  "clock (snd (write_flush_close env fd payload w)) = clock w + max 0 (latency env (tick w))"
  by (simp add: write_flush_close_def Let_def clock_syscall split: option.splits prod.splits)

lemma clock_print_stderr: "clock (print_stderr s w) = clock w"
  by (simp add: print_stderr_def)

lemma clock_stdout_write: "clock (stdout_write s w) = clock w"
  by (simp add: stdout_write_def)

subsection \<open>The rounds of the polling loop\<close>

text \<open>
  One round of \<open>wait_loop\<close> reads the file and then leaves with a result, times out, or
  sleeps and goes round again. \<open>wait_loop_rounds\<close> is induction over the rounds.
\<close>

lemma try_read_cases:
  obtains (found) t where "read_result env (tick w) p = Inr t" "t \<noteq> previous"
      "str_in (''command='' @ command) t"
      "try_read env p previous command w = (Some (Inr t), syscall env 0 (ReadText p (Inr t)) w)"
  | (nomatch) t where "read_result env (tick w) p = Inr t"
      "\<not> (t \<noteq> previous \<and> str_in (''command='' @ command) t)"
      "try_read env p previous command w = (None, syscall env 0 (ReadText p (Inr t)) w)"
  | (absent) msg where "read_result env (tick w) p = Inl (ENOENT, msg)"
      "try_read env p previous command w = (None, syscall env 0 (ReadText p (Inl (ENOENT, msg))) w)"
  | (fatal) e msg where "read_result env (tick w) p = Inl (e, msg)" "e \<noteq> ENOENT"
      "try_read env p previous command w = (Some (Inl (OSError e msg)), syscall env 0 (ReadText p (Inl (e, msg))) w)"
proof (cases "read_result env (tick w) p")
  case (Inl a)
  obtain e msg where a: "a = (e, msg)" by (cases a)
  show ?thesis
  proof (cases "e = ENOENT")
    case True
    with Inl a show ?thesis
      by (intro absent[of msg]) (simp_all add: try_read_def read_text_def Let_def)
  next
    case False
    with Inl a show ?thesis
      by (intro fatal[of e msg]) (simp_all add: try_read_def read_text_def Let_def)
  qed
next
  case (Inr t)
  show ?thesis
  proof (cases "t \<noteq> previous \<and> str_in (''command='' @ command) t")
    case True
    with Inr show ?thesis
      by (intro found[of t]) (simp_all add: try_read_def read_text_def Let_def)
  next
    case False
    with Inr show ?thesis
      by (intro nomatch[of t]) (simp_all add: try_read_def read_text_def Let_def)
  qed
qed

lemma try_read_world:
  "snd (try_read env p previous command w) = syscall env 0 (ReadText p (read_result env (tick w) p)) w"
  by (cases rule: try_read_cases[of env w p previous command]) simp_all

lemma try_read_world':
  "try_read env p previous command w = (r, w1) \<Longrightarrow>
   w1 = syscall env 0 (ReadText p (read_result env (tick w) p)) w"
  using try_read_world[of env p previous command w] by simp


lemma wait_loop_leave:
  "try_read env p previous command w = (Some res, w1) \<Longrightarrow>
   wait_loop env p previous command deadline w = (res, w1)"
  by (subst wait_loop.simps) simp

lemma wait_loop_timeout:
  "try_read env p previous command w = (None, w1) \<Longrightarrow> deadline \<le> clock w1 \<Longrightarrow>
   wait_loop env p previous command deadline w =
     (Inl (TimeoutError (''timed out waiting for response file update: '' @ p)), w1)"
  by (subst wait_loop.simps) simp

lemma wait_loop_retry:
  "try_read env p previous command w = (None, w1) \<Longrightarrow> \<not> deadline \<le> clock w1 \<Longrightarrow>
   wait_loop env p previous command deadline w =
     wait_loop env p previous command deadline (time_sleep env 0.05 w1)"
  by (subst wait_loop.simps) simp

lemma wait_loop_rounds [case_names leave timeout retry]:
  assumes "\<And>w res w1. try_read env p previous command w = (Some res, w1) \<Longrightarrow> Q w"
    and "\<And>w w1. try_read env p previous command w = (None, w1) \<Longrightarrow> d \<le> clock w1 \<Longrightarrow> Q w"
    and "\<And>w w1. try_read env p previous command w = (None, w1) \<Longrightarrow> \<not> d \<le> clock w1 \<Longrightarrow>
           Q (time_sleep env 0.05 w1) \<Longrightarrow> Q w"
  shows "Q w"
  using assms
proof (induction env p previous command d w rule: wait_loop.induct)
  case (1 env p previous command d w)
  obtain r w1 where tr: "try_read env p previous command w = (r, w1)"
    by (cases "try_read env p previous command w")
  show ?case
  proof (cases r)
    case (Some res)
    with tr show ?thesis by (intro "1.prems"(1)[of w res w1]) simp
  next
    case None
    show ?thesis
    proof (cases "d \<le> clock w1")
      case True
      with tr None show ?thesis by (intro "1.prems"(2)[of w w1]) simp_all
    next
      case False
      have "Q (time_sleep env 0.05 w1)"
        by (rule "1.IH"[OF tr[symmetric] None False "1.prems"])
      with tr None False show ?thesis by (intro "1.prems"(3)[of w w1]) simp_all
    qed
  qed
qed

lemma wait_loop_returns:
  "fst (wait_loop env p previous command deadline w) = Inr t \<Longrightarrow>
   t \<noteq> previous \<and> str_in (''command='' @ command) t"
proof (induction env p previous command deadline w rule: wait_loop.induct)
  case (1 env p previous command deadline w)
  show ?case
  proof (cases rule: try_read_cases[of env w p previous command])
    case (found t)
    with "1.prems" show ?thesis by (simp add: wait_loop_leave)
  next
    case (fatal e msg)
    with "1.prems" show ?thesis by (simp add: wait_loop_leave)
  next
    case (nomatch t)
    show ?thesis
    proof (cases "deadline \<le> clock (syscall env 0 (ReadText p (Inr t)) w)")
      case True
      with nomatch "1.prems" show ?thesis by (simp add: wait_loop_timeout)
    next
      case False
      with nomatch "1.prems" "1.IH"[OF nomatch(3)[symmetric] refl False] show ?thesis
        by (simp add: wait_loop_retry)
    qed
  next
    case (absent msg)
    show ?thesis
    proof (cases "deadline \<le> clock (syscall env 0 (ReadText p (Inl (ENOENT, msg))) w)")
      case True
      with absent "1.prems" show ?thesis by (simp add: wait_loop_timeout)
    next
      case False
      with absent "1.prems" "1.IH"[OF absent(2)[symmetric] refl False] show ?thesis
        by (simp add: wait_loop_retry)
    qed
  qed
qed

lemma wait_loop_stale:
  assumes "\<forall>k. read_result env k p = Inr previous"
  shows "fst (wait_loop env p previous command d w) =
           Inl (TimeoutError (''timed out waiting for response file update: '' @ p))"
proof (induction w rule: wait_loop_rounds[where env=env and p=p and previous=previous
      and command=command and d=d])
  case (leave w res w1)
  with assms show ?case
    by (cases rule: try_read_cases[of env w p previous command]) simp_all
next
  case (timeout w w1)
  then show ?case by (simp add: wait_loop_timeout)
next
  case (retry w w1)
  then show ?case by (simp add: wait_loop_retry)
qed

lemma wait_loop_timeout_late:
  "fst (wait_loop env p previous command d w) = Inl (TimeoutError m) \<Longrightarrow>
   d \<le> clock (snd (wait_loop env p previous command d w))"
proof (induction w rule: wait_loop_rounds[where env=env and p=p and previous=previous
      and command=command and d=d])
  case (leave w res w1)
  then show ?case
    by (cases rule: try_read_cases[of env w p previous command]) (simp_all add: wait_loop_leave)
next
  case (timeout w w1)
  then show ?case by (simp add: wait_loop_timeout)
next
  case (retry w w1)
  then show ?case by (simp add: wait_loop_retry)
qed

lemma wait_loop_ideal:
  assumes "\<forall>k. latency env k \<le> 0"
  shows "clock (snd (wait_loop env p previous command d w)) = clock w
       \<or> clock (snd (wait_loop env p previous command d w)) < d + 0.05"
proof (induction w rule: wait_loop_rounds[where env=env and p=p and previous=previous
      and command=command and d=d])
  case (leave w res w1)
  have "clock w1 = clock w"
    using try_read_world'[OF leave] assms by (simp add: clock_syscall no_latency)
  with leave show ?case by (simp add: wait_loop_leave)
next
  case (timeout w w1)
  have "clock w1 = clock w"
    using try_read_world'[OF timeout(1)] assms by (simp add: clock_syscall no_latency)
  with timeout show ?case by (simp add: wait_loop_timeout)
next
  case (retry w w1)
  have c: "clock w1 = clock w"
    using try_read_world'[OF retry(1)] assms by (simp add: clock_syscall no_latency)
  have s: "clock (time_sleep env 0.05 w1) = clock w1 + 0.05"
    using assms by (simp add: time_sleep_def clock_syscall no_latency)
  from retry(3) s c retry(2) show ?case
    by (auto simp: wait_loop_retry[OF retry(1,2)])
qed

lemma wait_loop_trace:
  "\<exists>rest. trace (snd (wait_loop env p previous command d w)) =
            trace w @ ReadText p (read_result env (tick w) p) # rest
        \<and> (\<forall>ev\<in>set rest. (\<exists>r. ev = ReadText p r) \<or> ev = Sleep 0.05)"
proof (induction w rule: wait_loop_rounds[where env=env and p=p and previous=previous
      and command=command and d=d])
  case (leave w res w1)
  then show ?case
    using try_read_world'[OF leave] by (simp add: wait_loop_leave trace_syscall)
next
  case (timeout w w1)
  then show ?case
    using try_read_world'[OF timeout(1)] by (simp add: wait_loop_timeout trace_syscall)
next
  case (retry w w1)
  let ?w2 = "time_sleep env 0.05 w1"
  from retry(3) obtain rest where
    rest: "trace (snd (wait_loop env p previous command d ?w2)) =
             trace ?w2 @ ReadText p (read_result env (tick ?w2) p) # rest"
      "\<forall>ev\<in>set rest. (\<exists>r. ev = ReadText p r) \<or> ev = Sleep 0.05"
    by blast
  have t2: "trace ?w2 = trace w @ [ReadText p (read_result env (tick w) p), Sleep 0.05]"
    using try_read_world'[OF retry(1)] by (simp add: time_sleep_def trace_syscall)
  let ?rest = "Sleep 0.05 # ReadText p (read_result env (tick ?w2) p) # rest"
  have "trace (snd (wait_loop env p previous command d w)) =
          trace w @ ReadText p (read_result env (tick w) p) # ?rest"
    using rest(1) t2 by (simp add: wait_loop_retry[OF retry(1,2)])
  moreover have "\<forall>ev\<in>set ?rest. (\<exists>r. ev = ReadText p r) \<or> ev = Sleep 0.05"
    using rest(2) by simp
  ultimately show ?case by blast
qed



lemma wait_for_response_ideal:
  assumes "\<forall>k. latency env k \<le> 0"
  shows "clock (snd (wait_for_response env p previous command timeout w)) = clock w
       \<or> clock (snd (wait_for_response env p previous command timeout w)) < clock w + timeout + 0.05"
  using wait_loop_ideal[OF assms, of p previous command "clock w + timeout" w]
  by (simp add: wait_for_response_def)

lemma wait_for_response_timeout_late:
  "fst (wait_for_response env p previous command timeout w) = Inl (TimeoutError m) \<Longrightarrow>
   clock w + timeout \<le> clock (snd (wait_for_response env p previous command timeout w))"
  using wait_loop_timeout_late[of env p previous command "clock w + timeout" w m]
  by (simp add: wait_for_response_def)

subsection \<open>The rounds of the opening loop\<close>

text \<open>
  One round of \<open>open_loop\<close> opens the pipe, raises the error of that call, times out, or sleeps
  and goes round again. \<open>open_loop_rounds\<close> is induction over the rounds.
\<close>

lemma open_loop_opened:
  "open_result env (tick w) p = Inr fd \<Longrightarrow>
   open_loop env p d w = (Inr fd, syscall env 0 (OsOpen p (Inr fd)) w)"
  by (subst open_loop.simps) (simp add: os_open_eq)

lemma open_loop_fatal:
  "open_result env (tick w) p = Inl (e, msg) \<Longrightarrow> e \<notin> {ENOENT, ENXIO} \<Longrightarrow>
   open_loop env p d w = (Inl (OSError e msg), syscall env 0 (OsOpen p (Inl (e, msg))) w)"
  by (subst open_loop.simps) (simp add: os_open_eq)

lemma open_loop_timeout:
  "open_result env (tick w) p = Inl (e, msg) \<Longrightarrow> e \<in> {ENOENT, ENXIO} \<Longrightarrow>
   d \<le> clock (syscall env 0 (OsOpen p (Inl (e, msg))) w) \<Longrightarrow>
   open_loop env p d w =
     (Inl (TimeoutError (''timed out waiting for pipe: '' @ p)), syscall env 0 (OsOpen p (Inl (e, msg))) w)"
  by (subst open_loop.simps) (simp add: os_open_eq)

lemma open_loop_retry:
  "open_result env (tick w) p = Inl (e, msg) \<Longrightarrow> e \<in> {ENOENT, ENXIO} \<Longrightarrow>
   \<not> d \<le> clock (syscall env 0 (OsOpen p (Inl (e, msg))) w) \<Longrightarrow>
   open_loop env p d w =
     open_loop env p d (time_sleep env 0.05 (syscall env 0 (OsOpen p (Inl (e, msg))) w))"
  by (subst open_loop.simps) (auto simp: os_open_eq)

lemma open_loop_rounds [case_names opened fatal timeout retry]:
  assumes "\<And>w fd. open_result env (tick w) p = Inr fd \<Longrightarrow> Q w"
    and "\<And>w e msg. open_result env (tick w) p = Inl (e, msg) \<Longrightarrow> e \<notin> {ENOENT, ENXIO} \<Longrightarrow> Q w"
    and "\<And>w e msg. open_result env (tick w) p = Inl (e, msg) \<Longrightarrow> e \<in> {ENOENT, ENXIO} \<Longrightarrow>
           d \<le> clock (syscall env 0 (OsOpen p (Inl (e, msg))) w) \<Longrightarrow> Q w"
    and "\<And>w e msg. open_result env (tick w) p = Inl (e, msg) \<Longrightarrow> e \<in> {ENOENT, ENXIO} \<Longrightarrow>
           \<not> d \<le> clock (syscall env 0 (OsOpen p (Inl (e, msg))) w) \<Longrightarrow>
           Q (time_sleep env 0.05 (syscall env 0 (OsOpen p (Inl (e, msg))) w)) \<Longrightarrow> Q w"
  shows "Q w"
  using assms
proof (induction env p d w rule: open_loop.induct)
  case (1 env p d w)
  show ?case
  proof (cases "open_result env (tick w) p")
    case (Inr fd)
    then show ?thesis by (rule "1.prems"(1))
  next
    case (Inl a)
    obtain e msg where a: "a = (e, msg)" by (cases a)
    show ?thesis
    proof (cases "e \<in> {ENOENT, ENXIO}")
      case False
      with Inl a show ?thesis by (intro "1.prems"(2)[of w e msg]) simp_all
    next
      case True
      show ?thesis
      proof (cases "d \<le> clock (syscall env 0 (OsOpen p (Inl (e, msg))) w)")
        case late: True
        with Inl a True show ?thesis by (intro "1.prems"(3)[of w e msg]) simp_all
      next
        case early: False
        have e1: "(Inl (e, msg), syscall env 0 (OsOpen p (Inl (e, msg))) w) = os_open env p w"
          using Inl a by (simp add: os_open_eq)
        have e2: "\<not> e \<notin> {ENOENT, ENXIO}"
          using True by simp
        have "Q (time_sleep env 0.05 (syscall env 0 (OsOpen p (Inl (e, msg))) w))"
          by (rule "1.IH"[OF e1 refl refl e2 early "1.prems"])
        with Inl a True early show ?thesis by (intro "1.prems"(4)[of w e msg]) simp_all
      qed
    qed
  qed
qed



lemma open_loop_timeout_late:
  "fst (open_loop env p d w) = Inl (TimeoutError m) \<Longrightarrow> d \<le> clock (snd (open_loop env p d w))"
proof (induction w rule: open_loop_rounds[where env=env and p=p and d=d])
  case (opened w fd)
  then show ?case by (simp add: open_loop_opened)
next
  case (fatal w e msg)
  then show ?case by (simp add: open_loop_fatal)
next
  case (timeout w e msg)
  then show ?case by (simp add: open_loop_timeout)
next
  case (retry w e msg)
  then show ?case by (simp add: open_loop_retry)
qed

lemma open_loop_ideal:
  assumes "\<forall>k. latency env k \<le> 0"
  shows "clock (snd (open_loop env p d w)) = clock w
       \<or> clock (snd (open_loop env p d w)) < d + 0.05"
proof (induction w rule: open_loop_rounds[where env=env and p=p and d=d])
  case (opened w fd)
  then show ?case using assms by (simp add: open_loop_opened clock_syscall no_latency)
next
  case (fatal w e msg)
  then show ?case using assms by (simp add: open_loop_fatal clock_syscall no_latency)
next
  case (timeout w e msg)
  then show ?case using assms by (simp add: open_loop_timeout clock_syscall no_latency)
next
  case (retry w e msg)
  let ?w1 = "syscall env 0 (OsOpen p (Inl (e, msg))) w"
  have c: "clock ?w1 = clock w"
    using assms by (simp add: clock_syscall no_latency)
  have s: "clock (time_sleep env 0.05 ?w1) = clock ?w1 + 0.05"
    using assms by (simp add: time_sleep_def clock_syscall no_latency)
  have eq: "open_loop env p d w = open_loop env p d (time_sleep env 0.05 ?w1)"
    using retry(1,2,3) by (rule open_loop_retry)
  from retry(4) s c retry(3) show ?case
    unfolding eq by auto
qed



subsection \<open>The whole of send_command\<close>

lemma send_command_unfold:
  "send_command env p command timeout w =
     (case open_loop env p (clock w + timeout) w of
        (Inl exc, w1) \<Rightarrow> (Inl exc, w1)
      | (Inr fd, w1) \<Rightarrow> write_flush_close env fd (encode_utf8 command @ [0x0A]) w1)"
  by (simp add: send_command_def payload_eq Let_def)




lemma send_command_timeout_late:
  "fst (send_command env p command timeout w) = Inl (TimeoutError m) \<Longrightarrow>
   clock w + timeout \<le> clock (snd (send_command env p command timeout w))"
proof -
  assume h: "fst (send_command env p command timeout w) = Inl (TimeoutError m)"
  obtain res w1 where ol: "open_loop env p (clock w + timeout) w = (res, w1)"
    by (cases "open_loop env p (clock w + timeout) w")
  show ?thesis
  proof (cases res)
    case (Inl exc)
    with ol h have "fst (open_loop env p (clock w + timeout) w) = Inl (TimeoutError m)"
      by (simp add: send_command_unfold)
    from open_loop_timeout_late[OF this] ol Inl show ?thesis
      by (simp add: send_command_unfold)
  next
    case (Inr fd)
    with ol h show ?thesis
      by (simp add: send_command_unfold fst_write_flush_close split: option.splits prod.splits)
  qed
qed

lemma send_command_ideal:
  assumes "\<forall>k. latency env k \<le> 0"
  shows "clock (snd (send_command env p command timeout w)) = clock w
       \<or> clock (snd (send_command env p command timeout w)) < clock w + timeout + 0.05"
proof -
  obtain res w1 where ol: "open_loop env p (clock w + timeout) w = (res, w1)"
    by (cases "open_loop env p (clock w + timeout) w")
  have c: "clock w1 = clock w \<or> clock w1 < clock w + timeout + 0.05"
    using open_loop_ideal[OF assms, of p "clock w + timeout" w] ol by simp
  show ?thesis
  proof (cases res)
    case (Inl exc)
    with ol c show ?thesis by (simp add: send_command_unfold)
  next
    case (Inr fd)
    with ol c assms show ?thesis
      by (simp add: send_command_unfold clock_write_flush_close no_latency)
  qed
qed



subsection \<open>The phases of main\<close>

lemma main_phases:
  assumes "strip (join '' '' (arg_command a)) = command" and "command \<noteq> []"
    and "read_text env (arg_out a) w = (r0, w1)"
    and "r0 = Inr previous \<or> (previous = [] \<and> (\<exists>msg. r0 = Inl (ENOENT, msg)))"
    and "send_command env (arg_pipe a) command (arg_timeout a) w1 = (res, w2)"
    and "wait_for_response env (arg_out a) previous command (arg_timeout a) w2 = (res3, w3)"
  shows "main env a w =
      (case res of
         Inl exc \<Rightarrow> (Inr 1, print_stderr (''error: '' @ str_exc exc) w2)
       | Inr u \<Rightarrow>
          (case res3 of
             Inl exc \<Rightarrow> (Inr 1, print_stderr (''error: '' @ str_exc exc) w3)
           | Inr response \<Rightarrow>
               (Inr 0, (if \<not> endswith response [newline]
                        then stdout_write [newline] (stdout_write response w3)
                        else stdout_write response w3))))"
  using assms by (auto simp: main_def Let_def split: sum.splits)

subsection \<open>Concrete runs\<close>

text \<open>The program run on the example environments, step by step, by rewriting.\<close>

lemmas run_simps = main_def send_command_def wait_for_response_def open_loop.simps wait_loop.simps
  try_read_def read_text_def os_open_def time_sleep_def write_flush_close_def syscall_def
  print_stderr_def stdout_write_def Let_def w0_def strip_def isspace_def

lemma run_answering:
  "fst (wait_for_response env_answering ''/tmp/fallout-cli-out.txt'' [] ''state'' 2 w0) =
     Inr (''command=state'' @ [newline] @ ''HP: 100'' @ [newline])"
  by (simp add: wait_for_response_def wait_loop.simps try_read_def read_text_def syscall_def
      time_sleep_def env_answering_def w0_def Let_def)





lemma run_late_reader_main:
  "main env_late_reader args_late w0 =
     (Inr 1, \<lparr>clock = 0.3, tick = 16,
        trace = [ReadText ''/tmp/fallout-cli-out.txt'' (Inl (ENOENT, ''No such file or directory'')),
                 OsOpen ''/tmp/fallout-cli-in'' (Inl (ENXIO, ''No such device or address'')),
                 Sleep 0.05,
                 OsOpen ''/tmp/fallout-cli-in'' (Inl (ENXIO, ''No such device or address'')),
                 Sleep 0.05,
                 OsOpen ''/tmp/fallout-cli-in'' (Inl (ENXIO, ''No such device or address'')),
                 Sleep 0.05,
                 OsOpen ''/tmp/fallout-cli-in'' (Inr 3),
                 FdWrite 3 [0x73, 0x74, 0x61, 0x74, 0x65, 0x0A] None,
                 FdClose 3,
                 ReadText ''/tmp/fallout-cli-out.txt'' (Inl (ENOENT, ''No such file or directory'')),
                 Sleep 0.05,
                 ReadText ''/tmp/fallout-cli-out.txt'' (Inl (ENOENT, ''No such file or directory'')),
                 Sleep 0.05,
                 ReadText ''/tmp/fallout-cli-out.txt'' (Inl (ENOENT, ''No such file or directory'')),
                 Sleep 0.05,
                 ReadText ''/tmp/fallout-cli-out.txt'' (Inl (ENOENT, ''No such file or directory'')),
                 Stderr (''error: timed out waiting for response file update: /tmp/fallout-cli-out.txt''
                         @ [newline])]\<rparr>)"
  by (simp add: run_simps env_late_reader_def args_late_def encode_utf8_def encode_char_def newline_def)

lemma run_late_reader_send:
  "send_command env_late_reader ''/tmp/fallout-cli-in'' ''state'' 0.12
     \<lparr>clock = 0, tick = 1,
      trace = [ReadText ''/tmp/fallout-cli-out.txt'' (Inl (ENOENT, ''No such file or directory''))]\<rparr> =
     (Inr (), \<lparr>clock = 0.15, tick = 9,
        trace = [ReadText ''/tmp/fallout-cli-out.txt'' (Inl (ENOENT, ''No such file or directory'')),
                 OsOpen ''/tmp/fallout-cli-in'' (Inl (ENXIO, ''No such device or address'')),
                 Sleep 0.05,
                 OsOpen ''/tmp/fallout-cli-in'' (Inl (ENXIO, ''No such device or address'')),
                 Sleep 0.05,
                 OsOpen ''/tmp/fallout-cli-in'' (Inl (ENXIO, ''No such device or address'')),
                 Sleep 0.05,
                 OsOpen ''/tmp/fallout-cli-in'' (Inr 3),
                 FdWrite 3 [0x73, 0x74, 0x61, 0x74, 0x65, 0x0A] None,
                 FdClose 3]\<rparr>)"
  by (simp add: run_simps env_late_reader_def encode_utf8_def encode_char_def newline_def)

lemma run_late_reader_wait:
  "fst (wait_for_response env_late_reader ''/tmp/fallout-cli-out.txt'' [] ''state'' 0.12
     \<lparr>clock = 0.15, tick = 9,
        trace = [ReadText ''/tmp/fallout-cli-out.txt'' (Inl (ENOENT, ''No such file or directory'')),
                 OsOpen ''/tmp/fallout-cli-in'' (Inl (ENXIO, ''No such device or address'')),
                 Sleep 0.05,
                 OsOpen ''/tmp/fallout-cli-in'' (Inl (ENXIO, ''No such device or address'')),
                 Sleep 0.05,
                 OsOpen ''/tmp/fallout-cli-in'' (Inl (ENXIO, ''No such device or address'')),
                 Sleep 0.05,
                 OsOpen ''/tmp/fallout-cli-in'' (Inr 3),
                 FdWrite 3 [0x73, 0x74, 0x61, 0x74, 0x65, 0x0A] None,
                 FdClose 3]\<rparr>) =
   Inl (TimeoutError ''timed out waiting for response file update: /tmp/fallout-cli-out.txt'')"
  by (simp add: run_simps env_late_reader_def)




section \<open>The claims\<close>

text \<open>
  Claim C1. \<open>wait_for_response\<close> returns a text only if that text differs from the baseline and
  contains \<open>"command=" + C\<close>. In particular, when every read of the output file gives the
  baseline again, it raises the timeout error, also when the baseline contains the marker.
\<close>

theorem wait_for_response_returns_changed_marked_text:
  "(fst (wait_for_response env output_path P C timeout w) = Inr T \<longrightarrow>
      T \<noteq> P \<and> str_in (''command='' @ C) T)
   \<and> ((\<forall>k. read_result env k output_path = Inr P) \<longrightarrow>
      fst (wait_for_response env output_path P C timeout w) =
        Inl (TimeoutError (''timed out waiting for response file update: '' @ output_path)))"
  using wait_loop_returns[of env output_path P C "clock w + timeout" w T]
    wait_loop_stale[of env output_path P C "clock w + timeout" w]
  by (simp add: wait_for_response_def)

theorem wait_for_response_returns_changed_marked_text_witness:
  "fst (wait_for_response env_answering ''/tmp/fallout-cli-out.txt'' [] ''state'' 2 w0) =
     Inr (''command=state'' @ [newline] @ ''HP: 100'' @ [newline])
   \<and> ''command=state'' @ [newline] @ ''HP: 100'' @ [newline] \<noteq> []
   \<and> str_in (''command='' @ ''state'') (''command=state'' @ [newline] @ ''HP: 100'' @ [newline])
   \<and> fst (wait_for_response env_stale ''/tmp/fallout-cli-out.txt'' (''command=heal'' @ [newline])
            ''heal'' 0.5 w0) =
       Inl (TimeoutError (''timed out waiting for response file update: '' @ ''/tmp/fallout-cli-out.txt''))"
proof -
  have stale: "\<forall>k. read_result env_stale k ''/tmp/fallout-cli-out.txt'' = Inr (''command=heal'' @ [newline])"
    by (simp add: env_stale_def)
  show ?thesis
    using wait_for_response_returns_changed_marked_text[of env_answering
        "''/tmp/fallout-cli-out.txt''" "[]" "''state''" 2 w0
        "''command=state'' @ [newline] @ ''HP: 100'' @ [newline]"]
      wait_for_response_returns_changed_marked_text[of env_stale
        "''/tmp/fallout-cli-out.txt''" "''command=heal'' @ [newline]" "''heal''" "0.5" w0]
      run_answering stale
    by simp
qed



text \<open>
  Claim C3, amended. \<open>main\<close> passes the same timeout to both phases and each phase counts it
  from its own entry: a timeout of \<open>send_command\<close> comes no earlier than its entry time plus the
  timeout, and after a successful \<open>send_command\<close> a timeout of \<open>wait_for_response\<close> comes no
  earlier than the time \<open>send_command\<close> returned plus the full timeout. The wall time of one
  run is not bounded by twice the timeout: each phase can pass its deadline by up to one polling
  interval. When every sleep lasts exactly 50 ms, no other call takes time and the timeout is
  not negative, a run takes less than twice the timeout plus two polling intervals.
\<close>

theorem main_two_deadlines:
  assumes "strip (join '' '' (arg_command a)) = command" and "command \<noteq> []"
    and "read_text env (arg_out a) w = (r0, w1)"
    and "r0 = Inr previous \<or> (previous = [] \<and> (\<exists>msg. r0 = Inl (ENOENT, msg)))"
    and "send_command env (arg_pipe a) command (arg_timeout a) w1 = (res, w2)"
  shows "(\<forall>m. res = Inl (TimeoutError m) \<longrightarrow> clock w1 + arg_timeout a \<le> clock w2)
       \<and> (\<forall>u m. res = Inr u
              \<and> fst (wait_for_response env (arg_out a) previous command (arg_timeout a) w2) =
                  Inl (TimeoutError m) \<longrightarrow>
            fst (main env a w) = Inr 1
            \<and> clock w2 + arg_timeout a \<le> clock (snd (main env a w)))
       \<and> ((\<forall>k. latency env k \<le> 0) \<and> 0 \<le> arg_timeout a \<longrightarrow>
            clock (snd (main env a w)) < clock w + 2 * arg_timeout a + 2 * 0.05)"
proof -
  obtain res3 w3 where
    wait: "wait_for_response env (arg_out a) previous command (arg_timeout a) w2 = (res3, w3)"
    by (cases "wait_for_response env (arg_out a) previous command (arg_timeout a) w2")
  note run = main_phases[OF assms wait]
  have s: "clock w1 + arg_timeout a \<le> clock w2" if "res = Inl (TimeoutError m)" for m
    using send_command_timeout_late[of env "arg_pipe a" command "arg_timeout a" w1 m] assms(5) that
    by simp
  have wt: "fst (main env a w) = Inr 1 \<and> clock w2 + arg_timeout a \<le> clock (snd (main env a w))"
    if "res = Inr u" and "fst (wait_for_response env (arg_out a) previous command (arg_timeout a) w2) =
                  Inl (TimeoutError m)" for u m
  proof -
    from that(2) wait have r3: "res3 = Inl (TimeoutError m)" by simp
    have "clock w2 + arg_timeout a \<le> clock w3"
      using wait_for_response_timeout_late[OF that(2)] wait by simp
    with run that(1) r3 show ?thesis
      by (simp add: clock_print_stderr)
  qed
  have b: "clock (snd (main env a w)) < clock w + 2 * arg_timeout a + 2 * 0.05"
    if ideal: "\<forall>k. latency env k \<le> 0" and pos: "0 \<le> arg_timeout a"
  proof -
    have c1: "clock w1 = clock w"
      using assms(3) ideal by (auto simp: read_text_eq clock_syscall no_latency)
    have c2: "clock w2 = clock w1 \<or> clock w2 < clock w1 + arg_timeout a + 0.05"
      using send_command_ideal[OF ideal, of "arg_pipe a" command "arg_timeout a" w1] assms(5)
      by simp
    have c3: "clock w3 = clock w2 \<or> clock w3 < clock w2 + arg_timeout a + 0.05"
      using wait_for_response_ideal[OF ideal, of "arg_out a" previous command "arg_timeout a" w2] wait
      by simp
    have b2: "clock w2 < clock w + 2 * arg_timeout a + 2 * 0.05"
      using c1 c2 pos by auto
    have b3: "clock w3 < clock w + 2 * arg_timeout a + 2 * 0.05"
      using c1 c2 c3 pos by auto
    show ?thesis
      using run b2 b3
      by (simp add: clock_print_stderr clock_stdout_write split: sum.splits)
  qed
  from s wt b show ?thesis by blast
qed

theorem main_two_deadlines_witness:
  "fst (main env_late_reader args_late w0) = Inr 1
   \<and> 0.15 + arg_timeout args_late \<le> clock (snd (main env_late_reader args_late w0))
   \<and> clock (snd (main env_late_reader args_late w0)) < clock w0 + 2 * arg_timeout args_late + 2 * 0.05"
proof -
  let ?w1 = "\<lparr>clock = 0, tick = 1,
      trace = [ReadText ''/tmp/fallout-cli-out.txt'' (Inl (ENOENT, ''No such file or directory''))]\<rparr>"
  have cmd: "strip (join '' '' (arg_command args_late)) = ''state''"
    by (simp add: args_late_def strip_def isspace_def)
  have ne: "''state'' \<noteq> []"
    by simp
  have read: "read_text env_late_reader (arg_out args_late) w0 =
      (Inl (ENOENT, ''No such file or directory''), ?w1)"
    by (simp add: run_simps env_late_reader_def args_late_def)
  have base: "Inl (ENOENT, ''No such file or directory'') = Inr []
      \<or> ([] = [] \<and> (\<exists>msg. (Inl (ENOENT, ''No such file or directory'') :: oserror + string) = Inl (ENOENT, msg)))"
    by simp
  have send: "send_command env_late_reader (arg_pipe args_late) ''state'' (arg_timeout args_late) ?w1 =
      (Inr (), \<lparr>clock = 0.15, tick = 9,
        trace = [ReadText ''/tmp/fallout-cli-out.txt'' (Inl (ENOENT, ''No such file or directory'')),
                 OsOpen ''/tmp/fallout-cli-in'' (Inl (ENXIO, ''No such device or address'')),
                 Sleep 0.05,
                 OsOpen ''/tmp/fallout-cli-in'' (Inl (ENXIO, ''No such device or address'')),
                 Sleep 0.05,
                 OsOpen ''/tmp/fallout-cli-in'' (Inl (ENXIO, ''No such device or address'')),
                 Sleep 0.05,
                 OsOpen ''/tmp/fallout-cli-in'' (Inr 3),
                 FdWrite 3 [0x73, 0x74, 0x61, 0x74, 0x65, 0x0A] None,
                 FdClose 3]\<rparr>)"
    using run_late_reader_send by (simp add: args_late_def)
  have ideal: "\<forall>k. latency env_late_reader k \<le> 0"
    by (simp add: env_late_reader_def)
  have pos: "0 \<le> arg_timeout args_late"
    by (simp add: args_late_def)
  show ?thesis
    using main_two_deadlines[OF cmd ne read base send] run_late_reader_wait ideal pos
    by (simp add: args_late_def w0_def)
qed

text \<open>
  Claim C3 as first stated, with twice the timeout as the bound of the wall time, fails: with a
  timeout of 0.12 s, exact sleeps and a reader that attaches at 0.15 s, the run ends at 0.30 s.
\<close>

theorem main_wall_time_counterexample:
  "main env_late_reader args_late w0 =
     (Inr 1, \<lparr>clock = 0.3, tick = 16,
        trace = [ReadText ''/tmp/fallout-cli-out.txt'' (Inl (ENOENT, ''No such file or directory'')),
                 OsOpen ''/tmp/fallout-cli-in'' (Inl (ENXIO, ''No such device or address'')),
                 Sleep 0.05,
                 OsOpen ''/tmp/fallout-cli-in'' (Inl (ENXIO, ''No such device or address'')),
                 Sleep 0.05,
                 OsOpen ''/tmp/fallout-cli-in'' (Inl (ENXIO, ''No such device or address'')),
                 Sleep 0.05,
                 OsOpen ''/tmp/fallout-cli-in'' (Inr 3),
                 FdWrite 3 [0x73, 0x74, 0x61, 0x74, 0x65, 0x0A] None,
                 FdClose 3,
                 ReadText ''/tmp/fallout-cli-out.txt'' (Inl (ENOENT, ''No such file or directory'')),
                 Sleep 0.05,
                 ReadText ''/tmp/fallout-cli-out.txt'' (Inl (ENOENT, ''No such file or directory'')),
                 Sleep 0.05,
                 ReadText ''/tmp/fallout-cli-out.txt'' (Inl (ENOENT, ''No such file or directory'')),
                 Sleep 0.05,
                 ReadText ''/tmp/fallout-cli-out.txt'' (Inl (ENOENT, ''No such file or directory'')),
                 Stderr (''error: timed out waiting for response file update: /tmp/fallout-cli-out.txt''
                         @ [newline])]\<rparr>)
   \<and> arg_timeout args_late = 0.12
   \<and> (\<forall>k. latency env_late_reader k = 0)
   \<and> \<not> (0.3 :: real) \<le> clock w0 + 2 * arg_timeout args_late"
  by (simp add: run_late_reader_main) (simp add: args_late_def env_late_reader_def w0_def)









text \<open>
  Claim C7. With a timeout of 0 and an output file that still holds the baseline (or is still
  absent), \<open>wait_for_response\<close> raises the timeout error after its first read: the single
  read is all it does, it neither sleeps nor reads again.
\<close>

theorem wait_for_response_zero_timeout:
  assumes "read_result env (tick w) output_path = Inr P
         \<or> (\<exists>msg. read_result env (tick w) output_path = Inl (ENOENT, msg))"
  shows "fst (wait_for_response env output_path P C 0 w) =
           Inl (TimeoutError (''timed out waiting for response file update: '' @ output_path))
       \<and> trace (snd (wait_for_response env output_path P C 0 w)) =
           trace w @ [ReadText output_path (read_result env (tick w) output_path)]"
proof -
  let ?w1 = "syscall env 0 (ReadText output_path (read_result env (tick w) output_path)) w"
  have tr: "try_read env output_path P C w = (None, ?w1)"
    using assms by (cases rule: try_read_cases[of env w output_path P C]) auto
  have "clock w \<le> clock ?w1"
    by (simp add: clock_syscall)
  then have "wait_loop env output_path P C (clock w + 0) w =
      (Inl (TimeoutError (''timed out waiting for response file update: '' @ output_path)), ?w1)"
    using tr by (simp add: wait_loop_timeout)
  then show ?thesis
    by (simp add: wait_for_response_def trace_syscall)
qed

theorem wait_for_response_zero_timeout_witness:
  "fst (wait_for_response env_stale ''/tmp/fallout-cli-out.txt'' (''command=heal'' @ [newline])
          ''heal'' 0 w0) =
     Inl (TimeoutError (''timed out waiting for response file update: '' @ ''/tmp/fallout-cli-out.txt''))
   \<and> trace (snd (wait_for_response env_stale ''/tmp/fallout-cli-out.txt''
          (''command=heal'' @ [newline]) ''heal'' 0 w0)) =
       [ReadText ''/tmp/fallout-cli-out.txt'' (Inr (''command=heal'' @ [newline]))]"
  using wait_for_response_zero_timeout[of env_stale w0 "''/tmp/fallout-cli-out.txt''"
      "''command=heal'' @ [newline]" "''heal''"]
  by (simp add: env_stale_def w0_def)

text \<open>
  Claim C8. When the words of the command, joined by single spaces and stripped, give the empty
  string, \<open>main\<close> prints \<open>error: empty command\<close> on standard error and returns 2; the
  world is otherwise untouched: no system call is made, nothing is opened, read or written.
\<close>

theorem main_empty_command:
  assumes "strip (join '' '' (arg_command a)) = []"
  shows "main env a w = (Inr 2, w\<lparr>trace := trace w @ [Stderr (''error: empty command'' @ [newline])]\<rparr>)"
  using assms by (simp add: main_def print_stderr_def)

theorem main_empty_command_witness:
  "strip (join '' '' (arg_command args_blank)) = []
   \<and> main env_no_reader args_blank w0 =
       (Inr 2, \<lparr>clock = 0, tick = 0, trace = [Stderr (''error: empty command'' @ [newline])]\<rparr>)"
proof -
  have blank: "strip (join '' '' (arg_command args_blank)) = []"
    by (simp add: args_blank_def strip_def isspace_def)
  show ?thesis
    using main_empty_command[OF blank, of env_no_reader w0] blank
    by (simp add: w0_def)
qed



text \<open>
  Claim C10. \<open>wait_for_response\<close> reads the output file once before it looks at the deadline,
  whatever the timeout is; so a file that already holds a changed text with the marker is
  returned at once, for every timeout, also a negative one.
\<close>

theorem wait_for_response_reads_first:
  "(\<exists>rest. trace (snd (wait_for_response env output_path P C timeout w)) =
       trace w @ ReadText output_path (read_result env (tick w) output_path) # rest)
   \<and> (read_result env (tick w) output_path = Inr T \<and> T \<noteq> P \<and> str_in (''command='' @ C) T \<longrightarrow>
        fst (wait_for_response env output_path P C timeout w) = Inr T)"
proof
  show "\<exists>rest. trace (snd (wait_for_response env output_path P C timeout w)) =
       trace w @ ReadText output_path (read_result env (tick w) output_path) # rest"
    using wait_loop_trace[of env output_path P C "clock w + timeout" w]
    by (auto simp: wait_for_response_def)
next
  show "read_result env (tick w) output_path = Inr T \<and> T \<noteq> P \<and> str_in (''command='' @ C) T \<longrightarrow>
        fst (wait_for_response env output_path P C timeout w) = Inr T"
  proof
    assume h: "read_result env (tick w) output_path = Inr T \<and> T \<noteq> P \<and> str_in (''command='' @ C) T"
    then have "try_read env output_path P C w =
        (Some (Inr T), syscall env 0 (ReadText output_path (Inr T)) w)"
      by (cases rule: try_read_cases[of env w output_path P C]) auto
    then show "fst (wait_for_response env output_path P C timeout w) = Inr T"
      by (simp add: wait_for_response_def wait_loop_leave)
  qed
qed

theorem wait_for_response_reads_first_witness:
  "read_result env_stale (tick w0) ''/tmp/fallout-cli-out.txt'' = Inr (''command=heal'' @ [newline])
   \<and> ''command=heal'' @ [newline] \<noteq> []
   \<and> str_in (''command='' @ ''heal'') (''command=heal'' @ [newline])
   \<and> fst (wait_for_response env_stale ''/tmp/fallout-cli-out.txt'' [] ''heal'' (- 1) w0) =
       Inr (''command=heal'' @ [newline])"
  using wait_for_response_reads_first[of env_stale "''/tmp/fallout-cli-out.txt''" "[]" "''heal''"
      "- 1" w0 "''command=heal'' @ [newline]"]
  by (simp add: env_stale_def w0_def)

end
